theory Spec2Isabelle
  imports Main
begin

section \<open>The container stack of the immediate-mode interface (interface.cpp)\<close>

text \<open>
  The file keeps three process-wide variables: the vector \<open>container_stack\<close> of the
  containers that are open, the flag \<open>errors_occurred\<close> and the integer \<open>label_width\<close>.
  Everything else it does is a call to the interface driver (the functions
  \<open>sk_interface_...\<close>) or a line written to the warning log (\<open>CLOG\<close>).

  The model passes the three variables along in a record, together with a trace of
  what the code did to the outside, in the order it did it.
\<close>

subsection \<open>Data\<close>

datatype panel_type = panel | inset | treenode | column | popup

text \<open>
  \<open>container_info\<close>: the integers are C++ \<open>int\<close>. The file stores and forwards them and
  never computes with them, so they are taken as \<open>int\<close>.
\<close>

record container_info =
  type :: panel_type
  name :: string
  layout_widths :: "int list"
  layout_height :: int

text \<open>
  The brace initialiser \<open>{type, name}\<close> of \<open>_push_container_stack\<close> leaves the two layout
  members at their default member initialisers, \<open>{-1}\<close> and \<open>0\<close>.
\<close>

definition new_container :: "panel_type \<Rightarrow> string \<Rightarrow> container_info" where
  "new_container t n = \<lparr>type = t, name = n, layout_widths = [-1], layout_height = 0\<rparr>"

text \<open>
  The calls of the driver, each with the integer, string and boolean arguments it is
  given and with the value it returns (the last argument of the constructors that have
  a \<open>bool\<close>, and both arguments of \<open>sk_interface_get_container_size\<close>). Arguments whose
  types are declared outside this file (the rectangle of a panel, a font, the drawing
  options, the floating-point values of sliders and number boxes) are handed to the
  driver untouched and are not recorded. \<open>sk_interface_set_layout\<close> receives the size
  of the width vector, a pointer to its first element and the height; the pointer is
  recorded as the vector it points into.
\<close>

datatype backend_call =
    sk_interface_is_started bool
  | sk_interface_start
  | sk_interface_capacity_limited bool
  | sk_interface_set_layout nat "int list" int
  | sk_interface_end_panel
  | sk_interface_end_popup
  | sk_interface_end_inset
  | sk_interface_end_treenode
  | sk_interface_end_column
  | sk_interface_draw
  | sk_interface_style_set_font
  | sk_interface_style_set_font_size int
  | sk_interface_start_panel string bool
  | sk_interface_start_popup string bool
  | sk_interface_start_inset string
  | sk_interface_start_treenode string bool
  | sk_interface_open_popup string
  | sk_interface_get_container_size int int
  | sk_interface_start_column
  | sk_interface_header string bool
  | sk_interface_label string
  | sk_interface_text string
  | sk_interface_button string bool
  | sk_interface_checkbox string bool bool
  | sk_interface_slider
  | sk_interface_number
  | sk_interface_text_box string string
  | sk_interface_changed bool
  | sk_interface_confirmed bool

text \<open>
  An entry of the trace: a driver call, a line of the warning log, or the removal of a
  record from \<open>container_stack\<close> (recorded so that the order of driver calls and of
  \<open>pop_back\<close> can be stated; the code itself writes nothing when it pops).
\<close>

datatype event =
    Call backend_call
  | Clog string
  | Popped container_info

record interface_state =
  container_stack :: "container_info list"
  errors_occurred :: bool
  label_width :: int
  trace :: "event list"

text \<open>
  The driver is outside this file. What it answers is a parameter of the model: a
  function of everything that has happened so far and of the arguments of the call.
  Every driver call, queries included, extends the trace, so no two calls of one run
  are answered at the same trace, and any sequence of answers is the behaviour of some
  value of this record.
\<close>

record driver =
  is_started :: "event list \<Rightarrow> bool"
  capacity_limited :: "event list \<Rightarrow> bool"
  start_panel_result :: "event list \<Rightarrow> string \<Rightarrow> bool"
  start_popup_result :: "event list \<Rightarrow> string \<Rightarrow> bool"
  start_treenode_result :: "event list \<Rightarrow> string \<Rightarrow> bool"
  container_size :: "event list \<Rightarrow> int \<times> int"
  header_result :: "event list \<Rightarrow> string \<Rightarrow> bool"
  button_result :: "event list \<Rightarrow> string \<Rightarrow> bool"
  checkbox_result :: "event list \<Rightarrow> string \<Rightarrow> bool \<Rightarrow> bool"
  text_box_result :: "event list \<Rightarrow> string \<Rightarrow> string"
  changed_result :: "event list \<Rightarrow> bool"
  confirmed_result :: "event list \<Rightarrow> bool"

definition driver_call :: "backend_call \<Rightarrow> interface_state \<Rightarrow> interface_state" where
  "driver_call c s = s\<lparr>trace := trace s @ [Call c]\<rparr>"

definition CLOG :: "string \<Rightarrow> interface_state \<Rightarrow> interface_state" where
  "CLOG msg s = s\<lparr>trace := trace s @ [Clog msg]\<rparr>"

text \<open>\<open>container_stack.pop_back()\<close>, called only where the vector is not empty.\<close>

definition pop_back :: "interface_state \<Rightarrow> interface_state" where
  "pop_back s =
     s\<lparr>container_stack := butlast (container_stack s),
       trace := trace s @ [Popped (last (container_stack s))]\<rparr>"

text \<open>An assignment to a member of \<open>container_stack.back()\<close>.\<close>

definition update_back ::
  "(container_info \<Rightarrow> container_info) \<Rightarrow> interface_state \<Rightarrow> interface_state" where
  "update_back f s =
     s\<lparr>container_stack :=
         (container_stack s)[length (container_stack s) - 1 := f (last (container_stack s))]\<rparr>"

subsection \<open>The helpers\<close>

fun panel_type_to_string :: "panel_type \<Rightarrow> string" where
  "panel_type_to_string panel = ''panel''"
| "panel_type_to_string inset = ''inset''"
| "panel_type_to_string treenode = ''treenode''"
| "panel_type_to_string column = ''column''"
| "panel_type_to_string popup = ''popup''"

definition interface_sanity_check :: "driver \<Rightarrow> interface_state \<Rightarrow> interface_state" where
  "interface_sanity_check drv s =
     (let started = is_started drv (trace s);
          s1 = driver_call (sk_interface_is_started started) s;
          s2 = (if \<not> started
                then driver_call sk_interface_start
                       (CLOG ''Interface function called before 'process_events' - make sure to call this first!'' s1)
                else s1);
          limited = capacity_limited drv (trace s2);
          s3 = driver_call (sk_interface_capacity_limited limited) s2
      in if limited
         then driver_call sk_interface_start
                (CLOG ''The interface has now been cleared, to stop the program from crashing.''
                  (CLOG ''Too many interface items have been created without drawing/clearing them! Are you forgetting to call 'process_events' and 'draw_interface'?'' s3))
         else s3)"

text \<open>
  \<open>_update_layout\<close> hands the driver the size of the width vector of the current
  container, the address of its first element and the height. With an empty width vector
  (after \<open>single_line_layout\<close>) the size handed over is \<open>0\<close>.
\<close>

definition update_layout :: "interface_state \<Rightarrow> interface_state" where
  "update_layout s =
     (if length (container_stack s) = 0 then s
      else driver_call
             (sk_interface_set_layout
                (length (layout_widths (last (container_stack s))))
                (layout_widths (last (container_stack s)))
                (layout_height (last (container_stack s)))) s)"

definition push_container_stack ::
  "bool \<Rightarrow> panel_type \<Rightarrow> string \<Rightarrow> interface_state \<Rightarrow> interface_state" where
  "push_container_stack open t n s =
     update_layout
       (if open then s\<lparr>container_stack := container_stack s @ [new_container t n]\<rparr> else s)"

definition get_end_function_prefix :: "panel_type \<Rightarrow> string" where
  "get_end_function_prefix t = (if t = column then ''leave_'' else ''end_'')"

fun pop_container_by_type :: "panel_type \<Rightarrow> interface_state \<Rightarrow> interface_state" where
  "pop_container_by_type panel s = driver_call sk_interface_end_panel s"
| "pop_container_by_type popup s = driver_call sk_interface_end_popup s"
| "pop_container_by_type inset s = driver_call sk_interface_end_inset s"
| "pop_container_by_type treenode s = driver_call sk_interface_end_treenode s"
| "pop_container_by_type column s = driver_call sk_interface_end_column s"

subsection \<open>Closing a container: \<open>_pop_container_stack\<close>\<close>

text \<open>
  A \<open>reverse_iterator\<close> of the vector is modelled by the index of its base:
  \<open>rbegin()\<close> is the size, \<open>rend()\<close> is \<open>0\<close>, \<open>*i\<close> is the element at index
  \<open>base - 1\<close> and \<open>i++\<close> takes one from the base. An iterator keeps its position when
  \<open>pop_back\<close> shortens the vector (the vector never reallocates while it shrinks), and
  \<open>*i\<close> reads the vector as it is at that moment.

  The search loop (lines 147 to 155): the result is the base of \<open>correct_container\<close>,
  \<open>0\<close> when the loop ran to \<open>rend()\<close>.
\<close>

fun pop_container_stack_find :: "container_info list \<Rightarrow> panel_type \<Rightarrow> string \<Rightarrow> nat \<Rightarrow> nat" where
  "pop_container_stack_find cs t n 0 = 0"
| "pop_container_stack_find cs t n (Suc b) =
     (if type (cs ! b) = t \<and> name (cs ! b) = n then Suc b
      else pop_container_stack_find cs t n b)"

text \<open>
  The loop of lines 172 to 175, from \<open>rbegin()\<close> up to \<open>correct_container\<close> (base \<open>c\<close>),
  which lists the containers to close first. The last but one argument is the base of
  \<open>i\<close>. The first equation is the iterator at \<open>rend()\<close>: the loops of this function start
  at \<open>rbegin()\<close> and stop at a position between \<open>rend()\<close> and \<open>rbegin()\<close>, so they stop
  there at the latest.
\<close>

fun pop_container_stack_list :: "nat \<Rightarrow> nat \<Rightarrow> interface_state \<Rightarrow> interface_state" where
  \<open>pop_container_stack_list c 0 s = s\<close>
| \<open>pop_container_stack_list c (Suc b) s =
     (if Suc b = c then s
      else pop_container_stack_list c b
             (CLOG (''    '' @ get_end_function_prefix (type (container_stack s ! b))
                      @ panel_type_to_string (type (container_stack s ! b))
                      @ ''("'' @ name (container_stack s ! b) @ ''");'') s))\<close>

text \<open>
  The unwinding loop of lines 179 to 183; \<open>c\<close> is the base of \<open>correct_container\<close> after
  its increment.
\<close>

fun pop_container_stack_unwind :: "nat \<Rightarrow> nat \<Rightarrow> interface_state \<Rightarrow> interface_state" where
  "pop_container_stack_unwind c 0 s = s"
| "pop_container_stack_unwind c (Suc b) s =
     (if Suc b = c then s
      else pop_container_stack_unwind c b
             (pop_back (pop_container_by_type (type (container_stack s ! b)) s)))"

definition pop_container_stack :: "panel_type \<Rightarrow> string \<Rightarrow> interface_state \<Rightarrow> interface_state" where
  \<open>pop_container_stack t n s =
     (if length (container_stack s) = 0 then
        (CLOG (''Unexpected call to '' @ get_end_function_prefix t @ panel_type_to_string t
                 @ ''("'' @ n @ ''") - no '' @ panel_type_to_string t
                 @ ''s (or any other containers at all) started!'') s)
        \<lparr>errors_occurred := True\<rparr>
      else
        let container = last (container_stack s) in
        if type container = t \<and> name container = n then
          pop_back (pop_container_by_type (type container) s)
        else
          let s1 = s\<lparr>errors_occurred := True\<rparr>;
              correct_container =
                pop_container_stack_find (container_stack s1) t n (length (container_stack s1))
          in
          if correct_container = 0 then
            CLOG (''    We were expecting a '' @ panel_type_to_string (type container)
                    @ '' named "'' @ name container @ ''" instead.'')
              (CLOG (''Unexpected call to '' @ get_end_function_prefix t @ panel_type_to_string t
                       @ ''("'' @ n @ ''") - no '' @ panel_type_to_string t
                       @ '' named '' @ [CHR 0x27] @ n @ ''' started! Maybe it's a typo?'') s1)
          else
            let s2 = CLOG (get_end_function_prefix t @ panel_type_to_string t
                             @ ''("'' @ n @ ''"); called too early!'') s1;
                s3 = CLOG ''Make sure to call these first:'' s2;
                s4 = pop_container_stack_list correct_container (length (container_stack s3)) s3
            in pop_container_stack_unwind (correct_container - 1) (length (container_stack s4)) s4)\<close>

subsection \<open>Layout of the current container, and drawing\<close>

definition two_column_layout :: "interface_state \<Rightarrow> interface_state" where
  "two_column_layout s =
     (if length (container_stack s) = 0 then s
      else update_layout
             (update_back (\<lambda>c. c\<lparr>layout_widths := layout_widths c @ [-1]\<rparr>)
               (update_back (\<lambda>c. c\<lparr>layout_widths := layout_widths c @ [label_width s]\<rparr>)
                 (update_back (\<lambda>c. c\<lparr>layout_widths := []\<rparr>) s))))"

text \<open>
  The loop of \<open>draw_interface\<close> (lines 202 to 210), from \<open>rbegin()\<close> to \<open>rend()\<close>; the
  first argument is the base of \<open>i\<close>.
\<close>

fun draw_interface_close :: "nat \<Rightarrow> interface_state \<Rightarrow> interface_state" where
  \<open>draw_interface_close 0 s = s\<close>
| \<open>draw_interface_close (Suc b) s =
     draw_interface_close b
       ((pop_back
          (pop_container_by_type (type (container_stack s ! b))
            (CLOG (''"'' @ name (container_stack s ! b) @ ''" ( a ''
                     @ panel_type_to_string (type (container_stack s ! b))
                     @ '' ) not closed before drawing! - make sure to call ''
                     @ get_end_function_prefix (type (container_stack s ! b))
                     @ panel_type_to_string (type (container_stack s ! b))
                     @ ''("'' @ name (container_stack s ! b) @ ''")!'') s)))
        \<lparr>errors_occurred := True\<rparr>)\<close>

definition errors_summary :: string where
  "errors_summary = ''=================Errors Occured in Interface!=================''"

definition draw_interface :: "driver \<Rightarrow> interface_state \<Rightarrow> interface_state" where
  "draw_interface drv s =
     (let s1 = interface_sanity_check drv s;
          s2 = draw_interface_close (length (container_stack s1)) s1;
          s3 = (if errors_occurred s2 then CLOG errors_summary s2 else s2);
          s4 = s3\<lparr>errors_occurred := False\<rparr>
      in driver_call sk_interface_draw s4)"

subsection \<open>The public functions\<close>

text \<open>
  A function that returns a value returns it paired with the new state. The two
  overloads of \<open>set_interface_font\<close> and of each widget get two names, and \<open>paragraph\<close>
  is written \<open>paragraph'\<close> (the plain name is a command of Isabelle). The leading
  underscore of the internal functions is dropped.
\<close>

definition set_interface_font :: "interface_state \<Rightarrow> interface_state" where
  "set_interface_font s = driver_call sk_interface_style_set_font s"

definition set_interface_font_named :: "string \<Rightarrow> interface_state \<Rightarrow> interface_state" where
  "set_interface_font_named fnt s = set_interface_font s"

definition set_interface_font_size :: "int \<Rightarrow> interface_state \<Rightarrow> interface_state" where
  "set_interface_font_size sz s = driver_call (sk_interface_style_set_font_size sz) s"

definition set_interface_label_width :: "int \<Rightarrow> interface_state \<Rightarrow> interface_state" where
  "set_interface_label_width width s = s\<lparr>label_width := width\<rparr>"

definition start_panel :: "driver \<Rightarrow> string \<Rightarrow> interface_state \<Rightarrow> bool \<times> interface_state" where
  "start_panel drv n s =
     (let s1 = interface_sanity_check drv s;
          open = start_panel_result drv (trace s1) n;
          s2 = driver_call (sk_interface_start_panel n open) s1
      in (open, push_container_stack open panel n s2))"

definition end_panel :: "driver \<Rightarrow> string \<Rightarrow> interface_state \<Rightarrow> interface_state" where
  "end_panel drv n s = pop_container_stack panel n (interface_sanity_check drv s)"

definition reset_layout :: "driver \<Rightarrow> interface_state \<Rightarrow> interface_state" where
  "reset_layout drv s =
     (let s1 = interface_sanity_check drv s in
      if length (container_stack s1) = 0 then s1
      else update_layout
             (update_back (\<lambda>c. c\<lparr>layout_widths := layout_widths c @ [-1]\<rparr>)
               (update_back (\<lambda>c. c\<lparr>layout_widths := []\<rparr>) s1)))"

definition single_line_layout :: "driver \<Rightarrow> interface_state \<Rightarrow> interface_state" where
  "single_line_layout drv s =
     (let s1 = interface_sanity_check drv s in
      if length (container_stack s1) = 0 then s1
      else update_layout (update_back (\<lambda>c. c\<lparr>layout_widths := []\<rparr>) s1))"

definition start_custom_layout :: "driver \<Rightarrow> interface_state \<Rightarrow> interface_state" where
  "start_custom_layout drv s =
     (let s1 = interface_sanity_check drv s in
      if length (container_stack s1) = 0 then s1
      else update_layout (update_back (\<lambda>c. c\<lparr>layout_widths := []\<rparr>) s1))"

definition add_column :: "driver \<Rightarrow> int \<Rightarrow> interface_state \<Rightarrow> interface_state" where
  "add_column drv width s =
     (let s1 = interface_sanity_check drv s in
      if length (container_stack s1) = 0 then s1
      else update_layout
             (update_back (\<lambda>c. c\<lparr>layout_widths := layout_widths c @ [width]\<rparr>) s1))"

text \<open>
  \<open>add_column_relative(double width)\<close> uses its argument in one place, the conversion
  \<open>(int)(w * width)\<close> of a floating-point product. The model takes that map from \<open>w\<close> to
  the converted product as the argument.
\<close>

definition add_column_relative :: "driver \<Rightarrow> (int \<Rightarrow> int) \<Rightarrow> interface_state \<Rightarrow> interface_state" where
  "add_column_relative drv width s =
     (let s1 = interface_sanity_check drv s in
      if length (container_stack s1) = 0 then s1
      else
        let (w, h) = container_size drv (trace s1);
            s2 = driver_call (sk_interface_get_container_size w h) s1
        in update_layout
             (update_back (\<lambda>c. c\<lparr>layout_widths := layout_widths c @ [width w]\<rparr>) s2))"

definition set_layout_height :: "driver \<Rightarrow> int \<Rightarrow> interface_state \<Rightarrow> interface_state" where
  "set_layout_height drv height s =
     (let s1 = interface_sanity_check drv s in
      if length (container_stack s1) = 0 then s1
      else update_layout (update_back (\<lambda>c. c\<lparr>layout_height := height\<rparr>) s1))"

definition start_popup :: "driver \<Rightarrow> string \<Rightarrow> interface_state \<Rightarrow> bool \<times> interface_state" where
  "start_popup drv n s =
     (let s1 = interface_sanity_check drv s;
          open = start_popup_result drv (trace s1) n;
          s2 = driver_call (sk_interface_start_popup n open) s1;
          s3 = push_container_stack open popup n s2
      in (open, if open then single_line_layout drv s3 else s3))"

definition end_popup :: "driver \<Rightarrow> string \<Rightarrow> interface_state \<Rightarrow> interface_state" where
  "end_popup drv n s = pop_container_stack popup n (interface_sanity_check drv s)"

definition start_inset :: "driver \<Rightarrow> string \<Rightarrow> int \<Rightarrow> interface_state \<Rightarrow> interface_state" where
  "start_inset drv n height s =
     (let s1 = interface_sanity_check drv s;
          s2 = set_layout_height drv height s1;
          s3 = driver_call (sk_interface_start_inset n) s2
      in push_container_stack True inset n s3)"

definition end_inset :: "driver \<Rightarrow> string \<Rightarrow> interface_state \<Rightarrow> interface_state" where
  "end_inset drv n s = pop_container_stack inset n (interface_sanity_check drv s)"

definition start_treenode :: "driver \<Rightarrow> string \<Rightarrow> interface_state \<Rightarrow> bool \<times> interface_state" where
  "start_treenode drv n s =
     (let s1 = interface_sanity_check drv s;
          open = start_treenode_result drv (trace s1) n;
          s2 = driver_call (sk_interface_start_treenode n open) s1
      in (open, push_container_stack open treenode n s2))"

definition end_treenode :: "driver \<Rightarrow> string \<Rightarrow> interface_state \<Rightarrow> interface_state" where
  "end_treenode drv n s = pop_container_stack treenode n (interface_sanity_check drv s)"

definition open_popup :: "driver \<Rightarrow> string \<Rightarrow> interface_state \<Rightarrow> interface_state" where
  "open_popup drv n s = driver_call (sk_interface_open_popup n) (interface_sanity_check drv s)"

definition enter_column :: "driver \<Rightarrow> interface_state \<Rightarrow> interface_state" where
  "enter_column drv s =
     push_container_stack True column ''''
       (driver_call sk_interface_start_column (interface_sanity_check drv s))"

definition leave_column :: "driver \<Rightarrow> interface_state \<Rightarrow> interface_state" where
  "leave_column drv s = pop_container_stack column '''' (interface_sanity_check drv s)"

definition header :: "driver \<Rightarrow> string \<Rightarrow> interface_state \<Rightarrow> bool \<times> interface_state" where
  "header drv lbl s =
     (let s1 = interface_sanity_check drv s;
          open = header_result drv (trace s1) lbl;
          s2 = driver_call (sk_interface_header lbl open) s1
      in (open, update_layout s2))"

definition label :: "driver \<Rightarrow> string \<Rightarrow> interface_state \<Rightarrow> interface_state" where
  "label drv lbl s = driver_call (sk_interface_label lbl) (interface_sanity_check drv s)"

definition paragraph' :: "driver \<Rightarrow> string \<Rightarrow> interface_state \<Rightarrow> interface_state" where
  "paragraph' drv txt s = driver_call (sk_interface_text txt) (interface_sanity_check drv s)"

definition button :: "driver \<Rightarrow> string \<Rightarrow> interface_state \<Rightarrow> bool \<times> interface_state" where
  "button drv txt s =
     (let s1 = interface_sanity_check drv s;
          res = button_result drv (trace s1) txt
      in (res, driver_call (sk_interface_button txt res) s1))"

definition button_with_label ::
  "driver \<Rightarrow> string \<Rightarrow> string \<Rightarrow> interface_state \<Rightarrow> bool \<times> interface_state" where
  "button_with_label drv lbl txt s =
     (let s1 = interface_sanity_check drv s;
          s2 = enter_column drv s1;
          s3 = two_column_layout s2;
          s4 = driver_call (sk_interface_label lbl) s3;
          (res, s5) = button drv txt s4
      in (res, leave_column drv s5))"

definition checkbox :: "driver \<Rightarrow> string \<Rightarrow> bool \<Rightarrow> interface_state \<Rightarrow> bool \<times> interface_state" where
  "checkbox drv txt val s =
     (let s1 = interface_sanity_check drv s;
          res = checkbox_result drv (trace s1) txt val
      in (res, driver_call (sk_interface_checkbox txt val res) s1))"

definition checkbox_with_label ::
  "driver \<Rightarrow> string \<Rightarrow> string \<Rightarrow> bool \<Rightarrow> interface_state \<Rightarrow> bool \<times> interface_state" where
  "checkbox_with_label drv lbl txt val s =
     (let s1 = interface_sanity_check drv s;
          s2 = enter_column drv s1;
          s3 = two_column_layout s2;
          s4 = driver_call (sk_interface_label lbl) s3;
          (res, s5) = checkbox drv txt val s4
      in (res, leave_column drv s5))"

text \<open>
  \<open>slider\<close> and \<open>number_box\<close> take floating-point arguments and return the driver's
  floating-point answer as it is; the model keeps their effect on the state.
\<close>

definition slider :: "driver \<Rightarrow> interface_state \<Rightarrow> interface_state" where
  "slider drv s = driver_call sk_interface_slider (interface_sanity_check drv s)"

definition slider_with_label :: "driver \<Rightarrow> string \<Rightarrow> interface_state \<Rightarrow> interface_state" where
  "slider_with_label drv lbl s =
     (let s1 = interface_sanity_check drv s;
          s2 = enter_column drv s1;
          s3 = two_column_layout s2;
          s4 = driver_call (sk_interface_label lbl) s3;
          s5 = slider drv s4
      in leave_column drv s5)"

definition number_box :: "driver \<Rightarrow> interface_state \<Rightarrow> interface_state" where
  "number_box drv s = driver_call sk_interface_number (interface_sanity_check drv s)"

definition number_box_with_label :: "driver \<Rightarrow> string \<Rightarrow> interface_state \<Rightarrow> interface_state" where
  "number_box_with_label drv lbl s =
     (let s1 = interface_sanity_check drv s;
          s2 = enter_column drv s1;
          s3 = two_column_layout s2;
          s4 = driver_call (sk_interface_label lbl) s3;
          s5 = number_box drv s4
      in leave_column drv s5)"

definition text_box :: "driver \<Rightarrow> string \<Rightarrow> interface_state \<Rightarrow> string \<times> interface_state" where
  "text_box drv val s =
     (let s1 = interface_sanity_check drv s;
          res = text_box_result drv (trace s1) val
      in (res, driver_call (sk_interface_text_box val res) s1))"

definition text_box_with_label ::
  "driver \<Rightarrow> string \<Rightarrow> string \<Rightarrow> interface_state \<Rightarrow> string \<times> interface_state" where
  "text_box_with_label drv lbl val s =
     (let s1 = interface_sanity_check drv s;
          s2 = enter_column drv s1;
          s3 = two_column_layout s2;
          s4 = driver_call (sk_interface_label lbl) s3;
          (res, s5) = text_box drv val s4
      in (res, leave_column drv s5))"

definition last_element_changed :: "driver \<Rightarrow> interface_state \<Rightarrow> bool \<times> interface_state" where
  "last_element_changed drv s =
     (let res = changed_result drv (trace s) in (res, driver_call (sk_interface_changed res) s))"

definition last_element_confirmed :: "driver \<Rightarrow> interface_state \<Rightarrow> bool \<times> interface_state" where
  "last_element_confirmed drv s =
     (let res = confirmed_result drv (trace s) in (res, driver_call (sk_interface_confirmed res) s))"

subsection \<open>Sequences of calls\<close>

text \<open>One constructor for each public function of the file, with its arguments.\<close>

datatype operation =
    Draw_interface
  | Set_interface_font
  | Set_interface_font_named string
  | Set_interface_font_size int
  | Set_interface_label_width int
  | Start_panel string
  | End_panel string
  | Start_popup string
  | End_popup string
  | Start_inset string int
  | End_inset string
  | Start_treenode string
  | End_treenode string
  | Open_popup string
  | Reset_layout
  | Single_line_layout
  | Start_custom_layout
  | Add_column int
  | Add_column_relative "int \<Rightarrow> int"
  | Set_layout_height int
  | Enter_column
  | Leave_column
  | Header string
  | Label string
  | Paragraph string
  | Button_with_label string string
  | Button string
  | Checkbox_with_label string string bool
  | Checkbox string bool
  | Slider_with_label string
  | Slider
  | Number_box_with_label string
  | Number_box
  | Text_box_with_label string string
  | Text_box string
  | Last_element_changed
  | Last_element_confirmed

fun step :: "driver \<Rightarrow> operation \<Rightarrow> interface_state \<Rightarrow> interface_state" where
  "step drv Draw_interface s = draw_interface drv s"
| "step drv Set_interface_font s = set_interface_font s"
| "step drv (Set_interface_font_named fnt) s = set_interface_font_named fnt s"
| "step drv (Set_interface_font_size sz) s = set_interface_font_size sz s"
| "step drv (Set_interface_label_width width) s = set_interface_label_width width s"
| "step drv (Start_panel n) s = snd (start_panel drv n s)"
| "step drv (End_panel n) s = end_panel drv n s"
| "step drv (Start_popup n) s = snd (start_popup drv n s)"
| "step drv (End_popup n) s = end_popup drv n s"
| "step drv (Start_inset n height) s = start_inset drv n height s"
| "step drv (End_inset n) s = end_inset drv n s"
| "step drv (Start_treenode n) s = snd (start_treenode drv n s)"
| "step drv (End_treenode n) s = end_treenode drv n s"
| "step drv (Open_popup n) s = open_popup drv n s"
| "step drv Reset_layout s = reset_layout drv s"
| "step drv Single_line_layout s = single_line_layout drv s"
| "step drv Start_custom_layout s = start_custom_layout drv s"
| "step drv (Add_column width) s = add_column drv width s"
| "step drv (Add_column_relative width) s = add_column_relative drv width s"
| "step drv (Set_layout_height height) s = set_layout_height drv height s"
| "step drv Enter_column s = enter_column drv s"
| "step drv Leave_column s = leave_column drv s"
| "step drv (Header lbl) s = snd (header drv lbl s)"
| "step drv (Label lbl) s = label drv lbl s"
| "step drv (Paragraph txt) s = paragraph' drv txt s"
| "step drv (Button_with_label lbl txt) s = snd (button_with_label drv lbl txt s)"
| "step drv (Button txt) s = snd (button drv txt s)"
| "step drv (Checkbox_with_label lbl txt val) s = snd (checkbox_with_label drv lbl txt val s)"
| "step drv (Checkbox txt val) s = snd (checkbox drv txt val s)"
| "step drv (Slider_with_label lbl) s = slider_with_label drv lbl s"
| "step drv Slider s = slider drv s"
| "step drv (Number_box_with_label lbl) s = number_box_with_label drv lbl s"
| "step drv Number_box s = number_box drv s"
| "step drv (Text_box_with_label lbl val) s = snd (text_box_with_label drv lbl val s)"
| "step drv (Text_box val) s = snd (text_box drv val s)"
| "step drv Last_element_changed s = snd (last_element_changed drv s)"
| "step drv Last_element_confirmed s = snd (last_element_confirmed drv s)"

fun run :: "driver \<Rightarrow> operation list \<Rightarrow> interface_state \<Rightarrow> interface_state" where
  "run drv [] s = s"
| "run drv (op # ops) s = run drv ops (step drv op s)"

subsection \<open>Notions used to state the properties\<close>

text \<open>What a run from \<open>s\<close> to \<open>s'\<close> added to the trace.\<close>

definition new_trace :: "interface_state \<Rightarrow> interface_state \<Rightarrow> event list" where
  "new_trace s s' = drop (length (trace s)) (trace s')"

text \<open>The driver call that \<open>_pop_container_by_type\<close> makes for a type.\<close>

fun end_call :: "panel_type \<Rightarrow> backend_call" where
  "end_call panel = sk_interface_end_panel"
| "end_call popup = sk_interface_end_popup"
| "end_call inset = sk_interface_end_inset"
| "end_call treenode = sk_interface_end_treenode"
| "end_call column = sk_interface_end_column"

text \<open>
  Closing and popping the records \<open>rs\<close> (given in stack order, outermost first), the
  innermost first: for each record the driver's close for its type, then its removal.
\<close>

definition unwound :: "container_info list \<Rightarrow> event list" where
  "unwound rs = concat (map (\<lambda>r. [Call (end_call (type r)), Popped r]) (rev rs))"

fun is_end_call :: "backend_call \<Rightarrow> bool" where
  "is_end_call sk_interface_end_panel = True"
| "is_end_call sk_interface_end_popup = True"
| "is_end_call sk_interface_end_inset = True"
| "is_end_call sk_interface_end_treenode = True"
| "is_end_call sk_interface_end_column = True"
| "is_end_call c = False"

fun is_set_layout :: "event \<Rightarrow> bool" where
  "is_set_layout (Call (sk_interface_set_layout k ws h)) = True"
| "is_set_layout e = False"

text \<open>The type a driver call opens a container of, if it opens one.\<close>

fun start_call :: "backend_call \<Rightarrow> panel_type option" where
  "start_call (sk_interface_start_panel n open) = (if open then Some panel else None)"
| "start_call (sk_interface_start_popup n open) = (if open then Some popup else None)"
| "start_call (sk_interface_start_inset n) = Some inset"
| "start_call (sk_interface_start_treenode n open) = (if open then Some treenode else None)"
| "start_call sk_interface_start_column = Some column"
| "start_call c = None"

text \<open>The driver calls and the pops of a trace, without the lines of the log.\<close>

fun is_action :: "event \<Rightarrow> bool" where
  "is_action (Clog msg) = False"
| "is_action e = True"

definition actions :: "event list \<Rightarrow> event list" where
  "actions es = filter is_action es"

text \<open>The driver's close calls and the pops of a trace.\<close>

fun is_close_or_pop :: "event \<Rightarrow> bool" where
  "is_close_or_pop (Call c) = is_end_call c"
| "is_close_or_pop (Popped r) = True"
| "is_close_or_pop (Clog msg) = False"

definition closes_and_pops :: "event list \<Rightarrow> event list" where
  "closes_and_pops es = filter is_close_or_pop es"

text \<open>
  A list of close calls and pops in which every pop comes right after the close call
  for the type of the record popped, and every close call right before such a pop.
\<close>

fun paired :: "event list \<Rightarrow> bool" where
  "paired [] = True"
| "paired (Call c # Popped r # es) = (c = end_call (type r) \<and> paired es)"
| "paired es = False"

text \<open>
  The calls that open or close a container or set its layout, and the pops: what is
  left of a trace without the log, the sanity check and the widgets.
\<close>

fun is_container_event :: "event \<Rightarrow> bool" where
  "is_container_event (Call c) =
     (is_end_call c \<or> is_set_layout (Call c) \<or> start_call c \<noteq> None)"
| "is_container_event (Popped r) = True"
| "is_container_event (Clog msg) = False"

definition container_events :: "event list \<Rightarrow> event list" where
  "container_events es = filter is_container_event es"

text \<open>
  The containers the driver has open, innermost first, as its calls tell: a call that
  opens pushes its type, a close call needs its own type on top and pops it. \<open>None\<close>
  when a close call finds another type on top, or nothing.
\<close>

fun driver_stack :: "panel_type list \<Rightarrow> event list \<Rightarrow> panel_type list option" where
  "driver_stack st [] = Some st"
| "driver_stack st (Call c # es) =
     (case start_call c of
        Some k \<Rightarrow> driver_stack (k # st) es
      | None \<Rightarrow>
          if is_end_call c then
            (case st of
               [] \<Rightarrow> None
             | k # st' \<Rightarrow> if c = end_call k then driver_stack st' es else None)
          else driver_stack st es)"
| "driver_stack st (e # es) = driver_stack st es"

text \<open>The calls that open a container, with the type and name of the record pushed.\<close>

fun opens :: "driver \<Rightarrow> operation \<Rightarrow> interface_state \<Rightarrow> (panel_type \<times> string) option" where
  "opens drv (Start_panel n) s = (if fst (start_panel drv n s) then Some (panel, n) else None)"
| "opens drv (Start_popup n) s = (if fst (start_popup drv n s) then Some (popup, n) else None)"
| "opens drv (Start_treenode n) s = (if fst (start_treenode drv n s) then Some (treenode, n) else None)"
| "opens drv (Start_inset n height) s = Some (inset, n)"
| "opens drv Enter_column s = Some (column, '''')"
| "opens drv op s = None"

text \<open>The calls that close a container, with the type and name they ask for.\<close>

fun closes :: "operation \<Rightarrow> (panel_type \<times> string) option" where
  "closes (End_panel n) = Some (panel, n)"
| "closes (End_popup n) = Some (popup, n)"
| "closes (End_treenode n) = Some (treenode, n)"
| "closes (End_inset n) = Some (inset, n)"
| "closes Leave_column = Some (column, '''')"
| "closes op = None"

text \<open>
  A sequence of calls is well nested from state \<open>s\<close>, with the containers \<open>opn\<close> open
  (innermost first), when every close call asks for the innermost container open at
  that moment, every open that succeeds is closed before the sequence ends, and the
  sequence does not draw. Calls that neither open nor close may stand anywhere.
\<close>

fun well_nested ::
  "driver \<Rightarrow> (panel_type \<times> string) list \<Rightarrow> operation list \<Rightarrow> interface_state \<Rightarrow> bool" where
  "well_nested drv opn [] s = (opn = [])"
| "well_nested drv opn (Draw_interface # ops) s = False"
| "well_nested drv opn (op # ops) s =
     (case closes op of
        Some kn \<Rightarrow>
          (case opn of
             [] \<Rightarrow> False
           | kn' # rest \<Rightarrow> kn' = kn \<and> well_nested drv rest ops (step drv op s))
      | None \<Rightarrow>
          well_nested drv (case opens drv op s of Some kn \<Rightarrow> kn # opn | None \<Rightarrow> opn) ops
            (step drv op s))"

fun layout_mutator :: "operation \<Rightarrow> bool" where
  "layout_mutator Reset_layout = True"
| "layout_mutator Single_line_layout = True"
| "layout_mutator Start_custom_layout = True"
| "layout_mutator (Add_column width) = True"
| "layout_mutator (Add_column_relative width) = True"
| "layout_mutator (Set_layout_height height) = True"
| "layout_mutator op = False"

fun labelled_widget :: "operation \<Rightarrow> bool" where
  "labelled_widget (Button_with_label lbl txt) = True"
| "labelled_widget (Checkbox_with_label lbl txt val) = True"
| "labelled_widget (Slider_with_label lbl) = True"
| "labelled_widget (Number_box_with_label lbl) = True"
| "labelled_widget (Text_box_with_label lbl val) = True"
| "labelled_widget op = False"

text \<open>A driver, some states and two sequences of calls for the examples.\<close>

definition example_driver :: driver where
  "example_driver =
     \<lparr>is_started = (\<lambda>tr. True), capacity_limited = (\<lambda>tr. False),
      start_panel_result = (\<lambda>tr n. True), start_popup_result = (\<lambda>tr n. True),
      start_treenode_result = (\<lambda>tr n. True), container_size = (\<lambda>tr. (200, 100)),
      header_result = (\<lambda>tr n. True), button_result = (\<lambda>tr n. False),
      checkbox_result = (\<lambda>tr n v. v), text_box_result = (\<lambda>tr v. v),
      changed_result = (\<lambda>tr. False), confirmed_result = (\<lambda>tr. False)\<rparr>"

definition initial_state :: interface_state where
  "initial_state = \<lparr>container_stack = [], errors_occurred = False, label_width = 60, trace = []\<rparr>"

definition state_of :: "container_info list \<Rightarrow> interface_state" where
  "state_of cs = \<lparr>container_stack = cs, errors_occurred = False, label_width = 60, trace = []\<rparr>"

definition three_open :: interface_state where
  "three_open =
     state_of [new_container panel ''A'', new_container inset ''B'', new_container popup ''C'']"

definition column_in_panel :: interface_state where
  "column_in_panel = state_of [new_container panel ''p'', new_container column '''']"

definition panel_open :: interface_state where
  "panel_open = state_of [new_container panel ''p'']"

definition two_open :: interface_state where
  "two_open = state_of [new_container panel ''X'', new_container inset ''Y'']"

definition nested_calls :: "operation list" where
  "nested_calls =
     [Start_panel ''p'', Enter_column, Button_with_label ''Size'' ''Apply'', Leave_column,
      Start_treenode ''t'', Add_column 50, End_treenode ''t'', End_panel ''p'']"

definition faulty_calls :: "operation list" where
  "faulty_calls =
     [Start_panel ''p'', Enter_column, End_panel ''p'', End_popup ''q'', Start_inset ''i'' 40,
      Draw_interface]"

text \<open>What the sanity check adds to a trace \<open>tr\<close>.\<close>

definition sanity_events :: "driver \<Rightarrow> event list \<Rightarrow> event list" where
  "sanity_events drv tr =
     drop (length tr)
       (trace (interface_sanity_check drv
                 \<lparr>container_stack = [], errors_occurred = False, label_width = 0, trace = tr\<rparr>))"

text \<open>
  The relation between a state and a later one that the runs of this file keep: the
  trace has only grown, the close calls and pops added are paired, and the calls added
  take the driver's stack of open containers from the types on \<open>container_stack\<close> before
  to the types on \<open>container_stack\<close> after.
\<close>

definition mirrored :: "interface_state \<Rightarrow> interface_state \<Rightarrow> bool" where
  "mirrored s s' \<longleftrightarrow>
     (\<exists>es. trace s' = trace s @ es \<and> paired (closes_and_pops es) \<and>
           driver_stack (rev (map type (container_stack s))) es
             = Some (rev (map type (container_stack s'))))"

section \<open>Properties\<close>

subsection \<open>What the primitives do to each variable\<close>

lemma driver_call_fields:
  "container_stack (driver_call c s) = container_stack s"
  "errors_occurred (driver_call c s) = errors_occurred s"
  "label_width (driver_call c s) = label_width s"
  "trace (driver_call c s) = trace s @ [Call c]"
  by (simp_all add: driver_call_def)

lemma CLOG_fields:
  "container_stack (CLOG m s) = container_stack s"
  "errors_occurred (CLOG m s) = errors_occurred s"
  "label_width (CLOG m s) = label_width s"
  "trace (CLOG m s) = trace s @ [Clog m]"
  by (simp_all add: CLOG_def)

lemma pop_back_fields:
  "container_stack (pop_back s) = butlast (container_stack s)"
  "errors_occurred (pop_back s) = errors_occurred s"
  "label_width (pop_back s) = label_width s"
  "trace (pop_back s) = trace s @ [Popped (last (container_stack s))]"
  by (simp_all add: pop_back_def)

lemma update_back_fields:
  "container_stack (update_back f s) =
     (container_stack s)[length (container_stack s) - 1 := f (last (container_stack s))]"
  "errors_occurred (update_back f s) = errors_occurred s"
  "label_width (update_back f s) = label_width s"
  "trace (update_back f s) = trace s"
  by (simp_all add: update_back_def)

lemma pop_container_by_type_eq: "pop_container_by_type t s = driver_call (end_call t) s"
  by (cases t) simp_all

lemma interface_sanity_check_fields:
  "container_stack (interface_sanity_check drv s) = container_stack s"
  "errors_occurred (interface_sanity_check drv s) = errors_occurred s"
  "label_width (interface_sanity_check drv s) = label_width s"
  "trace (interface_sanity_check drv s) = trace s @ sanity_events drv (trace s)"
  by (simp_all add: interface_sanity_check_def sanity_events_def Let_def driver_call_fields CLOG_fields)

lemma sanity_events_no_container_event [simp]: "container_events (sanity_events drv tr) = []"
  by (simp add: sanity_events_def container_events_def interface_sanity_check_def Let_def driver_call_fields CLOG_fields)

lemma update_layout_fields:
  "container_stack (update_layout s) = container_stack s"
  "errors_occurred (update_layout s) = errors_occurred s"
  "label_width (update_layout s) = label_width s"
  by (simp_all add: update_layout_def driver_call_fields)

subsection \<open>The loops of \<open>_pop_container_stack\<close> and \<open>draw_interface\<close>\<close>

lemma find_append:
  "b \<le> length cs \<Longrightarrow> pop_container_stack_find (cs @ ys) t n b = pop_container_stack_find cs t n b"
  by (induction b) (simp_all add: nth_append)

lemma find_none:
  "\<forall>c \<in> set cs. \<not> (type c = t \<and> name c = n) \<Longrightarrow> b \<le> length cs \<Longrightarrow>
   pop_container_stack_find cs t n b = 0"
  by (induction b) simp_all

lemma find_skip:
  "\<forall>c \<in> set ys. \<not> (type c = t \<and> name c = n) \<Longrightarrow>
   pop_container_stack_find (xs @ ys) t n (length xs + length ys) = pop_container_stack_find xs t n (length xs)"
proof (induction ys rule: rev_induct)
  case Nil
  then show ?case by simp
next
  case (snoc y ys)
  have "pop_container_stack_find ((xs @ ys) @ [y]) t n (Suc (length xs + length ys))
        = pop_container_stack_find ((xs @ ys) @ [y]) t n (length (xs @ ys))"
    using snoc.prems by (auto simp: nth_append)
  also have "\<dots> = pop_container_stack_find (xs @ ys) t n (length (xs @ ys))"
    by (rule find_append) simp
  finally show ?case using snoc by auto
qed

lemma list_loop:
  "\<exists>ms. pop_container_stack_list c b s = s\<lparr>trace := trace s @ map Clog ms\<rparr>"
proof (induction b arbitrary: s)
  case 0
  have "s = s\<lparr>trace := trace s @ map Clog []\<rparr>" by simp
  then show ?case by (metis pop_container_stack_list.simps(1))
next
  case (Suc b)
  show ?case
  proof (cases "Suc b = c")
    case True
    have "s = s\<lparr>trace := trace s @ map Clog []\<rparr>" by simp
    with True show ?thesis by (metis pop_container_stack_list.simps(2))
  next
    case False
    define m where "m = ''    '' @ get_end_function_prefix (type (container_stack s ! b))
                      @ panel_type_to_string (type (container_stack s ! b))
                      @ [CHR ''('', CHR 0x22] @ name (container_stack s ! b) @ [CHR 0x22, CHR '')'', CHR '';'']"
    from Suc[of "CLOG m s"] obtain ms where
      "pop_container_stack_list c b (CLOG m s) = (CLOG m s)\<lparr>trace := trace (CLOG m s) @ map Clog ms\<rparr>"
      by blast
    then have "pop_container_stack_list c (Suc b) s = s\<lparr>trace := trace s @ map Clog (m # ms)\<rparr>"
      using False by (simp add: m_def CLOG_def)
    then show ?thesis by blast
  qed
qed

lemma unwound_snoc: "unwound (rs @ [r]) = [Call (end_call (type r)), Popped r] @ unwound rs"
  by (simp add: unwound_def)

lemma unwound_Nil [simp]: "unwound [] = []"
  by (simp add: unwound_def)

lemma unwind_loop:
  "length (container_stack s) = b \<Longrightarrow> c \<le> b \<Longrightarrow>
   pop_container_stack_unwind c b s =
     s\<lparr>container_stack := take c (container_stack s),
       trace := trace s @ unwound (drop c (container_stack s))\<rparr>"
proof (induction b arbitrary: s)
  case 0
  then show ?case by simp
next
  case (Suc b)
  then obtain rs r where cs: "container_stack s = rs @ [r]" and len: "b = length rs"
    by (metis length_Suc_conv_rev)
  show ?case
  proof (cases "Suc b = c")
    case True
    then have "c = Suc b" by simp
    with Suc.prems show ?thesis by simp
  next
    case False
    let ?s1 = "pop_back (pop_container_by_type (type (container_stack s ! b)) s)"
    have s1: "container_stack ?s1 = rs" "trace ?s1 = trace s @ [Call (end_call (type r)), Popped r]"
      using cs len by (simp_all add: pop_back_fields pop_container_by_type_eq driver_call_fields)
    have c: "c \<le> b" using False Suc.prems by simp
    have "pop_container_stack_unwind c (Suc b) s = pop_container_stack_unwind c b ?s1"
      using False by simp
    also have "\<dots> = ?s1\<lparr>container_stack := take c (container_stack ?s1),
                       trace := trace ?s1 @ unwound (drop c (container_stack ?s1))\<rparr>"
      using c by (intro Suc.IH) (simp_all add: len cs pop_back_fields pop_container_by_type_eq driver_call_fields)
    also have "\<dots> = s\<lparr>container_stack := take c (container_stack s),
                       trace := trace s @ unwound (drop c (container_stack s))\<rparr>"
      using c len cs by (simp add: s1 unwound_snoc pop_back_def pop_container_by_type_eq driver_call_def)
    finally show ?thesis .
  qed
qed

lemma actions_simps [simp]:
  "actions [] = []"
  "actions (Clog m # es) = actions es"
  "actions (Call c # es) = Call c # actions es"
  "actions (Popped r # es) = Popped r # actions es"
  "actions (es @ es') = actions es @ actions es'"
  "actions (map Clog ms) = []"
  by (simp_all add: actions_def)

lemma actions_unwound [simp]: "actions (unwound rs) = unwound rs"
  by (induction rs rule: rev_induct) (simp_all add: unwound_snoc)

lemma draw_loop:
  "length (container_stack s) = b \<Longrightarrow>
   \<exists>es. draw_interface_close b s =
          s\<lparr>container_stack := [], errors_occurred := (errors_occurred s \<or> b \<noteq> 0),
            trace := trace s @ es\<rparr>
        \<and> actions es = unwound (container_stack s)"
proof (induction b arbitrary: s)
  case 0
  then have "draw_interface_close 0 s =
          s\<lparr>container_stack := [], errors_occurred := (errors_occurred s \<or> (0::nat) \<noteq> 0),
            trace := trace s @ []\<rparr> \<and> actions [] = unwound (container_stack s)"
    by simp
  then show ?case by blast
next
  case (Suc b)
  then obtain rs r where cs: "container_stack s = rs @ [r]" and len: "b = length rs"
    by (metis length_Suc_conv_rev)
  obtain s1 where s1: "draw_interface_close (Suc b) s = draw_interface_close b s1"
    and st: "container_stack s1 = rs" and er: "errors_occurred s1" and lw: "label_width s1 = label_width s"
    and "\<exists>m. trace s1 = trace s @ [Clog m, Call (end_call (type r)), Popped r]"
    using cs len
    by (simp add: pop_back_fields pop_container_by_type_eq driver_call_fields CLOG_fields)
  then obtain m where tr: "trace s1 = trace s @ [Clog m, Call (end_call (type r)), Popped r]"
    by blast
  from Suc.IH[of s1] st len obtain es where
    es: "draw_interface_close b s1 =
          s1\<lparr>container_stack := [], errors_occurred := (errors_occurred s1 \<or> b \<noteq> 0),
            trace := trace s1 @ es\<rparr>" "actions es = unwound rs"
    by auto
  have "s1\<lparr>container_stack := [], errors_occurred := (errors_occurred s1 \<or> b \<noteq> 0),
            trace := trace s1 @ es\<rparr>
        = s\<lparr>container_stack := [], errors_occurred := (errors_occurred s \<or> Suc b \<noteq> 0),
            trace := trace s @ ([Clog m, Call (end_call (type r)), Popped r] @ es)\<rparr>"
    using st er lw tr by (cases s; cases s1) simp
  moreover have "actions ([Clog m, Call (end_call (type r)), Popped r] @ es) = unwound (container_stack s)"
    using es(2) cs by (simp add: unwound_snoc)
  ultimately show ?case using s1 es(1) by metis
qed

subsection \<open>The four outcomes of \<open>_pop_container_stack\<close>\<close>

lemma list_loop_fields:
  "container_stack (pop_container_stack_list c b s) = container_stack s"
  "errors_occurred (pop_container_stack_list c b s) = errors_occurred s"
  "label_width (pop_container_stack_list c b s) = label_width s"
  by (induction b arbitrary: s) (simp_all add: CLOG_fields)

lemma pcs_label_width [simp]: "label_width (pop_container_stack t n s) = label_width s"
proof -
  have a: "label_width (pop_container_stack_list c b s') = label_width s'" for c b s'
    using list_loop[of c b s'] by (metis (no_types) interface_state.select_convs(3) interface_state.surjective interface_state.update_convs(4))
  have b: "label_width (pop_container_stack_unwind c b s') = label_width s'" for c b s'
    by (induction b arbitrary: s') (simp_all add: pop_back_fields pop_container_by_type_eq driver_call_fields)
  show ?thesis
    by (simp add: pop_container_stack_def Let_def a b CLOG_fields pop_back_fields pop_container_by_type_eq driver_call_fields)
qed

lemma pcs_empty:
  assumes "container_stack s = []"
  shows "container_stack (pop_container_stack t n s) = []"
    and "errors_occurred (pop_container_stack t n s)"
    and "\<exists>m. trace (pop_container_stack t n s) = trace s @ map Clog [m]"
  using assms by (simp_all add: pop_container_stack_def CLOG_fields)

lemma pcs_match:
  assumes "container_stack s \<noteq> []" "type (last (container_stack s)) = t"
    "name (last (container_stack s)) = n"
  shows "pop_container_stack t n s =
           s\<lparr>container_stack := butlast (container_stack s),
             trace := trace s @ [Call (end_call t), Popped (last (container_stack s))]\<rparr>"
  using assms
  by (simp add: pop_container_stack_def pop_back_def pop_container_by_type_eq driver_call_def)

lemma pcs_not_found:
  assumes "container_stack s \<noteq> []" "\<forall>c \<in> set (container_stack s). \<not> (type c = t \<and> name c = n)"
  shows "container_stack (pop_container_stack t n s) = container_stack s"
    and "errors_occurred (pop_container_stack t n s)"
    and "\<exists>m1 m2. trace (pop_container_stack t n s) = trace s @ map Clog [m1, m2]"
proof -
  have "\<not> (type (last (container_stack s)) = t \<and> name (last (container_stack s)) = n)"
    using assms last_in_set by blast
  moreover have "pop_container_stack_find (container_stack s) t n (length (container_stack s)) = 0"
    using assms(2) by (simp add: find_none)
  ultimately show "container_stack (pop_container_stack t n s) = container_stack s"
    and "errors_occurred (pop_container_stack t n s)"
    and "\<exists>m1 m2. trace (pop_container_stack t n s) = trace s @ map Clog [m1, m2]"
    using assms(1) by (auto simp add: pop_container_stack_def Let_def CLOG_fields)
qed

lemma pcs_found:
  assumes cs: "container_stack s = outer @ [target] @ inner"
    and inner: "inner \<noteq> []"
    and target: "type target = t" "name target = n"
    and skipped: "\<forall>c \<in> set inner. \<not> (type c = t \<and> name c = n)"
  shows "container_stack (pop_container_stack t n s) = outer"
    and "errors_occurred (pop_container_stack t n s)"
    and "\<exists>ms. trace (pop_container_stack t n s) = trace s @ map Clog ms @ unwound (target # inner)"
proof -
  have top: "\<not> (type (last (container_stack s)) = t \<and> name (last (container_stack s)) = n)"
    using cs inner skipped by simp
  have "pop_container_stack_find (container_stack s) t n (length (container_stack s))
        = pop_container_stack_find (outer @ [target]) t n (length (outer @ [target]))"
    using find_skip[of inner t n "outer @ [target]"] skipped cs by simp
  then have found: "pop_container_stack_find (container_stack s) t n (length (container_stack s))
        = Suc (length outer)"
    using target by simp
  have ne: "container_stack s \<noteq> []" using cs by simp
  have "\<exists>m. pop_container_stack t n s =
          pop_container_stack_unwind (length outer) (length (container_stack s))
            (pop_container_stack_list (Suc (length outer)) (length (container_stack s))
              (CLOG ''Make sure to call these first:'' (CLOG m (s\<lparr>errors_occurred := True\<rparr>))))"
    using top found ne by (simp add: pop_container_stack_def Let_def CLOG_fields list_loop_fields) blast
  then obtain m0 where run0: "pop_container_stack t n s =
          pop_container_stack_unwind (length outer) (length (container_stack s))
            (pop_container_stack_list (Suc (length outer)) (length (container_stack s))
              (CLOG ''Make sure to call these first:'' (CLOG m0 (s\<lparr>errors_occurred := True\<rparr>))))"
    by blast
  define s3 where "s3 = CLOG ''Make sure to call these first:'' (CLOG m0 (s\<lparr>errors_occurred := True\<rparr>))"
  have s3: "container_stack s3 = container_stack s" "errors_occurred s3"
    and m: "trace s3 = trace s @ map Clog [m0, ''Make sure to call these first:'']"
    by (simp_all add: s3_def CLOG_fields)
  have run: "pop_container_stack t n s =
          pop_container_stack_unwind (length outer) (length (container_stack s))
            (pop_container_stack_list (Suc (length outer)) (length (container_stack s)) s3)"
    using run0 by (simp add: s3_def)
  obtain ms where s4: "pop_container_stack_list (Suc (length outer)) (length (container_stack s)) s3
               = s3\<lparr>trace := trace s3 @ map Clog ms\<rparr>"
    using list_loop by blast
  let ?s4 = "s3\<lparr>trace := trace s3 @ map Clog ms\<rparr>"
  have st4: "length (container_stack ?s4) = length (container_stack s)"
    by (simp add: s3)
  have len: "length outer \<le> length (container_stack s)"
    using cs by simp
  have res: "pop_container_stack t n s =
      ?s4\<lparr>container_stack := take (length outer) (container_stack ?s4),
          trace := trace ?s4 @ unwound (drop (length outer) (container_stack ?s4))\<rparr>"
    unfolding run s4 by (rule unwind_loop[OF st4 len])
  show "container_stack (pop_container_stack t n s) = outer"
    and "errors_occurred (pop_container_stack t n s)"
    using cs s3 by (simp_all add: res)
  have "trace (pop_container_stack t n s)
        = trace s @ map Clog ([m0, ''Make sure to call these first:''] @ ms) @ unwound (target # inner)"
    using cs by (simp add: res m s3(1))
  then show "\<exists>ms. trace (pop_container_stack t n s) = trace s @ map Clog ms @ unwound (target # inner)"
    by blast
qed

lemma pcs_errors_occurred:
  "errors_occurred (pop_container_stack t n s) =
     (errors_occurred s \<or> \<not> (container_stack s \<noteq> [] \<and> type (last (container_stack s)) = t
                                      \<and> name (last (container_stack s)) = n))"
proof -
  have a: "errors_occurred (pop_container_stack_list c b s') = errors_occurred s'" for c b s'
    using list_loop[of c b s'] by (metis (no_types) interface_state.select_convs(2) interface_state.surjective interface_state.update_convs(4))
  have b: "errors_occurred (pop_container_stack_unwind c b s') = errors_occurred s'" for c b s'
    by (induction b arbitrary: s') (simp_all add: pop_back_fields pop_container_by_type_eq driver_call_fields)
  show ?thesis
    by (simp add: pop_container_stack_def Let_def a b CLOG_fields pop_back_fields pop_container_by_type_eq driver_call_fields)
qed

lemma pcs_general:
  "\<exists>k ms. k \<le> length (container_stack s) \<and>
     container_stack (pop_container_stack t n s) = take k (container_stack s) \<and>
     trace (pop_container_stack t n s) = trace s @ map Clog ms @ unwound (drop k (container_stack s))"
proof -
  let ?cs = "container_stack s"
  let ?s' = "pop_container_stack t n s"
  let ?P = "\<lambda>c. type c = t \<and> name c = n"
  consider (empty) "?cs = []" | (match) "?cs \<noteq> []" "?P (last ?cs)"
    | (none) "?cs \<noteq> []" "\<forall>c \<in> set ?cs. \<not> ?P c"
    | (found) "?cs \<noteq> []" "\<not> ?P (last ?cs)" "\<exists>c \<in> set ?cs. ?P c"
    by blast
  then show ?thesis
  proof cases
    case empty
    from pcs_empty[OF empty, of t n] obtain m where
      "container_stack ?s' = []" "trace ?s' = trace s @ map Clog [m]" by blast
    then have "0 \<le> length ?cs \<and> container_stack ?s' = take 0 ?cs \<and>
         trace ?s' = trace s @ map Clog [m] @ unwound (drop 0 ?cs)"
      using empty by simp
    then show ?thesis by blast
  next
    case match
    have "length ?cs - 1 \<le> length ?cs \<and> container_stack ?s' = take (length ?cs - 1) ?cs \<and>
         trace ?s' = trace s @ map Clog [] @ unwound (drop (length ?cs - 1) ?cs)"
      using match pcs_match[of s t n]
      by (cases ?cs rule: rev_cases) (simp_all add: unwound_def butlast_conv_take)
    then show ?thesis by blast
  next
    case none
    from pcs_not_found[OF none] obtain m1 m2 where
      "container_stack ?s' = ?cs" "trace ?s' = trace s @ map Clog [m1, m2]"
      by blast
    then have "length ?cs \<le> length ?cs \<and> container_stack ?s' = take (length ?cs) ?cs \<and>
         trace ?s' = trace s @ map Clog [m1, m2] @ unwound (drop (length ?cs) ?cs)"
      by simp
    then show ?thesis by blast
  next
    case found
    from split_list_last_prop[OF found(3)] obtain outer target inner where
      cs: "?cs = outer @ target # inner" and target: "?P target" and skipped: "\<forall>c \<in> set inner. \<not> ?P c"
      by blast
    have inner: "inner \<noteq> []" using cs target found(2) by auto
    from pcs_found[of s outer target inner t n] cs inner target skipped obtain ms where
      "container_stack ?s' = outer" "trace ?s' = trace s @ map Clog ms @ unwound (target # inner)"
      by auto
    then have "length outer \<le> length ?cs \<and> container_stack ?s' = take (length outer) ?cs \<and>
         trace ?s' = trace s @ map Clog ms @ unwound (drop (length outer) ?cs)"
      using cs by simp
    then show ?thesis by blast
  qed
qed

lemma new_trace_append: "trace s' = trace s @ es \<Longrightarrow> new_trace s s' = es"
  by (simp add: new_trace_def)

subsection \<open>Closing a container\<close>

text \<open>
  C1. A close call for a container that is open but not innermost: the record asked for
  is \<open>target\<close>, the records \<open>inner\<close> opened after it are still on the stack and none
  of them has the type and name asked for. Then \<open>_pop_container_stack\<close> sets the error
  flag, calls the driver's close for each record of \<open>inner\<close> from the innermost to the
  outermost and pops it, then does the same for \<open>target\<close>, each once, and leaves the
  records below \<open>target\<close> on the stack.
\<close>

theorem premature_close_unwinds:
  assumes "container_stack s = outer @ [target] @ inner"
    and "inner \<noteq> []"
    and "type target = t \<and> name target = n"
    and "\<forall>c \<in> set inner. \<not> (type c = t \<and> name c = n)"
  shows "container_stack (pop_container_stack t n s) = outer
       \<and> errors_occurred (pop_container_stack t n s)
       \<and> actions (new_trace s (pop_container_stack t n s))
           = concat (map (\<lambda>r. [Call (end_call (type r)), Popped r]) (rev inner @ [target]))"
proof -
  from pcs_found[of s outer target inner t n] assms obtain ms where
    st: "container_stack (pop_container_stack t n s) = outer"
    and er: "errors_occurred (pop_container_stack t n s)"
    and tr: "trace (pop_container_stack t n s) = trace s @ map Clog ms @ unwound (target # inner)"
    by auto
  have "actions (new_trace s (pop_container_stack t n s)) = unwound (target # inner)"
    using new_trace_append[OF tr] by simp
  then show ?thesis using st er by (simp add: unwound_def)
qed

text \<open>
  With \<open>A\<close>, \<open>B\<close>, \<open>C\<close> opened in this order, closing \<open>A\<close> closes \<open>C\<close>, then \<open>B\<close>, then
  \<open>A\<close>, and leaves the stack empty.
\<close>

theorem premature_close_unwinds_witness:
  "container_stack three_open
     = [] @ [new_container panel ''A''] @ [new_container inset ''B'', new_container popup ''C'']
   \<and> container_stack (pop_container_stack panel ''A'' three_open) = []
   \<and> errors_occurred (pop_container_stack panel ''A'' three_open)
   \<and> actions (new_trace three_open (pop_container_stack panel ''A'' three_open))
       = [Call sk_interface_end_popup, Popped (new_container popup ''C''),
          Call sk_interface_end_inset, Popped (new_container inset ''B''),
          Call sk_interface_end_panel, Popped (new_container panel ''A'')]"
  using premature_close_unwinds[of three_open "[]" "new_container panel ''A''"
      "[new_container inset ''B'', new_container popup ''C'']" panel "''A''"]
  by (simp add: three_open_def state_of_def new_container_def)

text \<open>
  C2. A close call whose type and name are those of the innermost record: the driver's
  close for that type is called once, that record and no other is popped, and the
  error flag stays as it was.
\<close>

theorem matching_close:
  assumes "container_stack s \<noteq> []"
    and "type (last (container_stack s)) = t \<and> name (last (container_stack s)) = n"
  shows "container_stack (pop_container_stack t n s) = butlast (container_stack s)
       \<and> errors_occurred (pop_container_stack t n s) = errors_occurred s
       \<and> new_trace s (pop_container_stack t n s)
           = [Call (end_call t), Popped (last (container_stack s))]"
  using assms pcs_match[of s t n] by (simp add: new_trace_def)

theorem matching_close_witness:
  "container_stack column_in_panel \<noteq> []
   \<and> type (last (container_stack column_in_panel)) = column
   \<and> name (last (container_stack column_in_panel)) = ''''
   \<and> container_stack (pop_container_stack column '''' column_in_panel) = [new_container panel ''p'']
   \<and> \<not> errors_occurred (pop_container_stack column '''' column_in_panel)
   \<and> new_trace column_in_panel (pop_container_stack column '''' column_in_panel)
       = [Call sk_interface_end_column, Popped (new_container column '''')]"
  using matching_close[of column_in_panel column "''''"]
  by (simp add: column_in_panel_def state_of_def new_container_def)

text \<open>
  C3. A close call whose type and name match no record of the stack, empty or not:
  the stack stays as it is, no driver call is made and nothing is popped, and the
  error flag is set.
\<close>

theorem unmatched_close_is_inert:
  assumes "\<forall>c \<in> set (container_stack s). \<not> (type c = t \<and> name c = n)"
  shows "container_stack (pop_container_stack t n s) = container_stack s
       \<and> errors_occurred (pop_container_stack t n s)
       \<and> actions (new_trace s (pop_container_stack t n s)) = []"
proof (cases "container_stack s = []")
  case True
  from pcs_empty[OF True, of t n] obtain m where
    "container_stack (pop_container_stack t n s) = []" "errors_occurred (pop_container_stack t n s)"
    and tr: "trace (pop_container_stack t n s) = trace s @ map Clog [m]"
    by blast
  then show ?thesis using True new_trace_append[OF tr] by simp
next
  case False
  from pcs_not_found[OF False assms] obtain m1 m2 where
    "container_stack (pop_container_stack t n s) = container_stack s"
    "errors_occurred (pop_container_stack t n s)"
    and tr: "trace (pop_container_stack t n s) = trace s @ map Clog [m1, m2]"
    by blast
  then show ?thesis using new_trace_append[OF tr] by simp
qed

theorem unmatched_close_is_inert_witness:
  "container_stack (pop_container_stack panel ''q'' column_in_panel)
     = [new_container panel ''p'', new_container column '''']
   \<and> errors_occurred (pop_container_stack panel ''q'' column_in_panel)
   \<and> actions (new_trace column_in_panel (pop_container_stack panel ''q'' column_in_panel)) = []
   \<and> container_stack (pop_container_stack panel ''q'' initial_state) = []
   \<and> errors_occurred (pop_container_stack panel ''q'' initial_state)
   \<and> actions (new_trace initial_state (pop_container_stack panel ''q'' initial_state)) = []"
  using unmatched_close_is_inert[of column_in_panel panel "''q''"]
    unmatched_close_is_inert[of initial_state panel "''q''"]
  by (simp add: column_in_panel_def state_of_def new_container_def initial_state_def)

subsection \<open>The layout of the current container\<close>

lemma interface_sanity_check_eq:
  "interface_sanity_check drv s = s\<lparr>trace := trace s @ sanity_events drv (trace s)\<rparr>"
  by (rule interface_state.equality) (simp_all add: interface_sanity_check_fields)

lemma sanity_events_no_set_layout [simp]: "filter is_set_layout (sanity_events drv tr) = []"
  by (simp add: sanity_events_def interface_sanity_check_def Let_def driver_call_fields CLOG_fields)

lemmas layout_defs =
  reset_layout_def single_line_layout_def start_custom_layout_def add_column_def
  add_column_relative_def set_layout_height_def two_column_layout_def update_layout_def
  update_back_def driver_call_def interface_sanity_check_eq Let_def

text \<open>
  C8. With a container open, \<open>reset_layout\<close> leaves the current (innermost) container
  with the width sequence \<open>[-1]\<close>, and \<open>_two_column_layout\<close>, with \<open>label_width = 60\<close>,
  leaves it with \<open>[60, -1]\<close>. The other records, and the other members of the
  current one, stay as they are.
\<close>

theorem layout_reset:
  assumes "container_stack s \<noteq> []"
  shows "container_stack (reset_layout drv s)
           = butlast (container_stack s) @ [(last (container_stack s))\<lparr>layout_widths := [-1]\<rparr>]
       \<and> layout_widths (last (container_stack (reset_layout drv s))) = [-1]
       \<and> (label_width s = 60 \<longrightarrow>
            container_stack (two_column_layout s)
              = butlast (container_stack s) @ [(last (container_stack s))\<lparr>layout_widths := [60, -1]\<rparr>]
          \<and> layout_widths (last (container_stack (two_column_layout s))) = [60, -1])"
  using assms by (cases "container_stack s" rule: rev_cases) (simp_all add: layout_defs)

theorem layout_reset_witness:
  "container_stack (add_column example_driver 25 column_in_panel) \<noteq> []
   \<and> label_width (add_column example_driver 25 column_in_panel) = 60
   \<and> layout_widths (last (container_stack (add_column example_driver 25 column_in_panel)))
       = [-1, 25]
   \<and> layout_widths (last (container_stack
         (reset_layout example_driver (add_column example_driver 25 column_in_panel)))) = [-1]
   \<and> layout_widths (last (container_stack
         (two_column_layout (add_column example_driver 25 column_in_panel)))) = [60, -1]"
  using layout_reset[of "add_column example_driver 25 column_in_panel" example_driver]
  by (simp add: column_in_panel_def state_of_def new_container_def layout_defs)

text \<open>
  C9. Each of \<open>reset_layout\<close>, \<open>single_line_layout\<close>, \<open>start_custom_layout\<close>,
  \<open>add_column\<close>, \<open>add_column_relative\<close> and \<open>set_layout_height\<close>: with no container
  open it leaves the stack, the error flag and the label width as they are and makes no
  set-layout call; with a container open, the last thing it does is the set-layout call
  with the widths and the height that the current container has when it returns.
\<close>

theorem layout_mutators:
  assumes "layout_mutator op"
  shows "(container_stack s = [] \<longrightarrow>
            container_stack (step drv op s) = [] \<and>
            errors_occurred (step drv op s) = errors_occurred s \<and>
            label_width (step drv op s) = label_width s \<and>
            filter is_set_layout (new_trace s (step drv op s)) = [])
       \<and> (container_stack s \<noteq> [] \<longrightarrow>
            container_stack (step drv op s) \<noteq> [] \<and>
            new_trace s (step drv op s) \<noteq> [] \<and>
            last (new_trace s (step drv op s))
              = Call (sk_interface_set_layout
                        (length (layout_widths (last (container_stack (step drv op s)))))
                        (layout_widths (last (container_stack (step drv op s))))
                        (layout_height (last (container_stack (step drv op s))))))"
  using assms
  by (cases op; cases "container_stack s" rule: rev_cases)
     (simp_all add: layout_defs new_trace_def split: prod.splits)

lemma container_events_simps [simp]:
  "container_events [] = []"
  "container_events (e # es) = (if is_container_event e then e # container_events es else container_events es)"
  "container_events (es @ es') = container_events es @ container_events es'"
  by (simp_all add: container_events_def)

lemmas widget_defs =
  button_with_label_def checkbox_with_label_def slider_with_label_def number_box_with_label_def
  text_box_with_label_def button_def checkbox_def slider_def number_box_def text_box_def
  enter_column_def leave_column_def push_container_stack_def new_container_def

text \<open>\<open>add_column(50)\<close>, with nothing open and with a fresh panel open.\<close>

theorem layout_mutators_witness:
  "layout_mutator (Add_column 50) \<and> container_stack initial_state = []
   \<and> container_stack (step example_driver (Add_column 50) initial_state) = []
   \<and> filter is_set_layout
         (new_trace initial_state (step example_driver (Add_column 50) initial_state)) = []
   \<and> container_stack panel_open \<noteq> []
   \<and> last (new_trace panel_open (step example_driver (Add_column 50) panel_open))
       = Call (sk_interface_set_layout 2 [-1, 50] 0)"
  using layout_mutators[of "Add_column 50" initial_state example_driver]
    layout_mutators[of "Add_column 50" panel_open example_driver]
  by (simp add: panel_open_def state_of_def initial_state_def new_container_def layout_defs)

subsection \<open>The widgets with a label\<close>

text \<open>
  C10. Each widget with a label (button, checkbox, slider, number box, text box)
  returns with the stack, the error flag and the label width it was called with. Of the
  calls that open, close or lay out a container it makes exactly these: it opens one
  column, sends the default layout of the new record, sends the two-column layout
  \<open>[label_width, -1]\<close>, and closes the column; the record it pops is that column, with
  the empty name and the two-column layout.
\<close>

theorem labelled_widget_keeps_stack:
  assumes "labelled_widget op"
  shows "container_stack (step drv op s) = container_stack s
       \<and> errors_occurred (step drv op s) = errors_occurred s
       \<and> label_width (step drv op s) = label_width s
       \<and> container_events (new_trace s (step drv op s))
           = [Call sk_interface_start_column,
              Call (sk_interface_set_layout 1 [-1] 0),
              Call (sk_interface_set_layout 2 [label_width s, -1] 0),
              Call sk_interface_end_column,
              Popped \<lparr>type = column, name = '''', layout_widths = [label_width s, -1],
                      layout_height = 0\<rparr>]"
  using assms
  by (cases op) (simp_all add: widget_defs layout_defs pcs_match new_trace_def)

theorem labelled_widget_keeps_stack_witness:
  "labelled_widget (Button_with_label ''Size'' ''Apply'')
   \<and> container_stack (step example_driver (Button_with_label ''Size'' ''Apply'') panel_open)
       = [new_container panel ''p'']
   \<and> \<not> errors_occurred (step example_driver (Button_with_label ''Size'' ''Apply'') panel_open)
   \<and> container_events
         (new_trace panel_open (step example_driver (Button_with_label ''Size'' ''Apply'') panel_open))
       = [Call sk_interface_start_column,
          Call (sk_interface_set_layout 1 [-1] 0),
          Call (sk_interface_set_layout 2 [60, -1] 0),
          Call sk_interface_end_column,
          Popped \<lparr>type = column, name = '''', layout_widths = [60, -1], layout_height = 0\<rparr>]"
  using labelled_widget_keeps_stack[of "Button_with_label ''Size'' ''Apply''" example_driver panel_open]
  by (simp add: panel_open_def state_of_def new_container_def)

subsection \<open>Drawing\<close>

lemma closes_and_pops_simps [simp]:
  "closes_and_pops [] = []"
  "closes_and_pops (e # es) = (if is_close_or_pop e then e # closes_and_pops es else closes_and_pops es)"
  "closes_and_pops (es @ es') = closes_and_pops es @ closes_and_pops es'"
  by (simp_all add: closes_and_pops_def)

lemma is_end_call_end_call [simp]: "is_end_call (end_call t)"
  by (cases t) simp_all

lemma start_call_end_call [simp]: "start_call (end_call t) = None"
  by (cases t) simp_all

lemma closes_and_pops_unwound [simp]: "closes_and_pops (unwound rs) = unwound rs"
  by (induction rs rule: rev_induct) (simp_all add: unwound_snoc)

lemma closes_and_pops_actions [simp]: "closes_and_pops (actions es) = closes_and_pops es"
proof -
  have "is_close_or_pop e \<Longrightarrow> is_action e" for e
    by (cases e) simp_all
  then show ?thesis
    by (induction es) (auto simp add: actions_def)
qed

lemma closes_and_pops_sanity [simp]: "closes_and_pops (sanity_events drv tr) = []"
  by (simp add: sanity_events_def interface_sanity_check_def Let_def driver_call_fields CLOG_fields)

lemma set_layout_end_call [simp]: "\<not> is_set_layout (Call (end_call t))"
  by (cases t) simp_all

lemma set_layout_unwound [simp]: "filter is_set_layout (unwound rs) = []"
  by (induction rs rule: rev_induct) (simp_all add: unwound_snoc)

lemma set_layout_actions: "filter is_set_layout (actions es) = filter is_set_layout es"
proof -
  have "is_set_layout e \<Longrightarrow> is_action e" for e
    by (cases e) simp_all
  then show ?thesis
    by (induction es) (auto simp add: actions_def)
qed

lemma set_layout_Clog [simp]: "filter is_set_layout (map Clog ms) = []"
  by (induction ms) simp_all

lemma draw_interface_result:
  "\<exists>es. actions es = unwound (container_stack s) \<and>
     draw_interface drv s =
       s\<lparr>container_stack := [], errors_occurred := False,
         trace := trace s @ sanity_events drv (trace s) @ es
                  @ (if errors_occurred s \<or> container_stack s \<noteq> [] then [Clog errors_summary] else [])
                  @ [Call sk_interface_draw]\<rparr>"
proof -
  let ?s1 = "interface_sanity_check drv s"
  from draw_loop[of ?s1 "length (container_stack ?s1)"] obtain es where
    loop: "draw_interface_close (length (container_stack ?s1)) ?s1 =
          ?s1\<lparr>container_stack := [],
              errors_occurred := (errors_occurred ?s1 \<or> length (container_stack ?s1) \<noteq> 0),
              trace := trace ?s1 @ es\<rparr>"
    and es: "actions es = unwound (container_stack ?s1)"
    by blast
  have "draw_interface drv s =
       s\<lparr>container_stack := [], errors_occurred := False,
         trace := trace s @ sanity_events drv (trace s) @ es
                  @ (if errors_occurred s \<or> container_stack s \<noteq> [] then [Clog errors_summary] else [])
                  @ [Call sk_interface_draw]\<rparr>"
    unfolding draw_interface_def Let_def loop
    by (simp add: interface_sanity_check_eq CLOG_def driver_call_def)
  moreover have "actions es = unwound (container_stack s)"
    using es by (simp add: interface_sanity_check_fields)
  ultimately show ?thesis by blast
qed

text \<open>
  C5. \<open>draw_interface\<close> calls the driver's close for every record still on the stack,
  from the innermost to the outermost, and pops it; the stack is empty afterwards in
  every case. Its loop leaves the error flag set when the stack was not empty (the
  summary line is then written to the log), and the flag is cleared on return.
\<close>

theorem draw_closes_everything:
  "container_stack (draw_interface drv s) = []
   \<and> \<not> errors_occurred (draw_interface drv s)
   \<and> closes_and_pops (new_trace s (draw_interface drv s))
       = concat (map (\<lambda>r. [Call (end_call (type r)), Popped r]) (rev (container_stack s)))
   \<and> errors_occurred (draw_interface_close (length (container_stack s)) s)
       = (errors_occurred s \<or> container_stack s \<noteq> [])
   \<and> (container_stack s \<noteq> [] \<longrightarrow> Clog errors_summary \<in> set (new_trace s (draw_interface drv s)))"
proof -
  from draw_interface_result[of s drv] obtain es where
    es: "actions es = unwound (container_stack s)"
    and res: "draw_interface drv s =
       s\<lparr>container_stack := [], errors_occurred := False,
         trace := trace s @ sanity_events drv (trace s) @ es
                  @ (if errors_occurred s \<or> container_stack s \<noteq> [] then [Clog errors_summary] else [])
                  @ [Call sk_interface_draw]\<rparr>"
    by blast
  have "closes_and_pops es = unwound (container_stack s)"
    using closes_and_pops_actions[of es] es by simp
  then have a: "closes_and_pops (new_trace s (draw_interface drv s)) = unwound (container_stack s)"
    by (simp add: res new_trace_def)
  from draw_loop[of s "length (container_stack s)"] have
    b: "errors_occurred (draw_interface_close (length (container_stack s)) s)
       = (errors_occurred s \<or> container_stack s \<noteq> [])"
    by auto
  show ?thesis
    using a b by (simp add: res new_trace_def unwound_def)
qed

text \<open>With \<open>X\<close> (outer) and \<open>Y\<close> (inner) still open, \<open>Y\<close> is closed before \<open>X\<close>.\<close>

theorem draw_closes_everything_witness:
  "container_stack two_open \<noteq> []
   \<and> container_stack (draw_interface example_driver two_open) = []
   \<and> \<not> errors_occurred (draw_interface example_driver two_open)
   \<and> closes_and_pops (new_trace two_open (draw_interface example_driver two_open))
       = [Call sk_interface_end_inset, Popped (new_container inset ''Y''),
          Call sk_interface_end_panel, Popped (new_container panel ''X'')]
   \<and> Clog errors_summary \<in> set (new_trace two_open (draw_interface example_driver two_open))"
  using draw_closes_everything[of example_driver two_open]
  by (simp add: two_open_def state_of_def new_container_def)

subsection \<open>When the layout is sent to the driver\<close>

text \<open>
  C7 says that the layout of the new top of the stack is sent to the driver after every
  push and after every pop. It is not sent after a pop: with a panel open and a column
  inside it, \<open>leave_column\<close> asks the driver whether it is started and whether it is
  full, closes the column, pops it, and returns; the panel is the new top and no
  set-layout call is made.
\<close>

theorem pop_sends_no_layout_counterexample:
  "container_stack (leave_column example_driver column_in_panel) = [new_container panel ''p'']
   \<and> new_trace column_in_panel (leave_column example_driver column_in_panel)
       = [Call (sk_interface_is_started True), Call (sk_interface_capacity_limited False),
          Call sk_interface_end_column, Popped (new_container column '''')]
   \<and> filter is_set_layout
         (new_trace column_in_panel (leave_column example_driver column_in_panel)) = []"
  by (simp add: leave_column_def interface_sanity_check_def Let_def example_driver_def
      column_in_panel_def state_of_def new_container_def driver_call_def pcs_match new_trace_def)

text \<open>
  C7, amended. After every push the layout of the new top of the stack (the widths
  \<open>[-1]\<close> and the height \<open>0\<close> of a new record) is sent to the driver by a set-layout
  call. The code that pops, \<open>_pop_container_stack\<close> and \<open>draw_interface\<close>, makes no
  set-layout call.
\<close>

theorem layout_sent_after_push_only:
  "container_stack (push_container_stack True t n s) = container_stack s @ [new_container t n]
   \<and> new_trace s (push_container_stack True t n s) = [Call (sk_interface_set_layout 1 [-1] 0)]
   \<and> filter is_set_layout (new_trace s (pop_container_stack t n s)) = []
   \<and> filter is_set_layout (new_trace s (draw_interface drv s)) = []"
proof -
  from pcs_general[of s t n] obtain k ms where
    "trace (pop_container_stack t n s) = trace s @ map Clog ms @ unwound (drop k (container_stack s))"
    by blast
  then have a: "filter is_set_layout (new_trace s (pop_container_stack t n s)) = []"
    by (simp add: new_trace_def)
  from draw_interface_result[of s drv] obtain es where
    es: "actions es = unwound (container_stack s)"
    and res: "draw_interface drv s =
       s\<lparr>container_stack := [], errors_occurred := False,
         trace := trace s @ sanity_events drv (trace s) @ es
                  @ (if errors_occurred s \<or> container_stack s \<noteq> [] then [Clog errors_summary] else [])
                  @ [Call sk_interface_draw]\<rparr>"
    by blast
  have "filter is_set_layout es = []"
    using set_layout_actions[of es] es by simp
  then have b: "filter is_set_layout (new_trace s (draw_interface drv s)) = []"
    by (simp add: res new_trace_def)
  show ?thesis
    using a b by (simp add: push_container_stack_def update_layout_def driver_call_def new_container_def new_trace_def)
qed

subsection \<open>Sequences of calls\<close>

lemma paired_append: "paired xs \<Longrightarrow> paired ys \<Longrightarrow> paired (xs @ ys)"
  by (induction xs rule: paired.induct) simp_all

lemma paired_unwound [simp]: "paired (unwound rs)"
  by (induction rs rule: rev_induct) (simp_all add: unwound_snoc)

lemma driver_stack_append:
  "driver_stack st (es @ es') =
     (case driver_stack st es of None \<Rightarrow> None | Some st' \<Rightarrow> driver_stack st' es')"
  by (induction st es rule: driver_stack.induct) (simp_all split: option.splits list.splits)

lemma driver_stack_Clog [simp]: "driver_stack st (map Clog ms) = Some st"
  by (induction ms) simp_all

lemma driver_stack_unwound: "driver_stack (rev (map type rs) @ st) (unwound rs) = Some st"
  by (induction rs rule: rev_induct) (simp_all add: unwound_snoc)

lemma driver_stack_unwound_drop:
  "driver_stack (rev (map type cs)) (unwound (drop k cs)) = Some (rev (map type (take k cs)))"
proof -
  have "rev (map type cs) = rev (map type (drop k cs)) @ rev (map type (take k cs))"
    by (metis append_take_drop_id map_append rev_append)
  then show ?thesis by (simp add: driver_stack_unwound)
qed

lemma driver_stack_sanity [simp]: "driver_stack st (sanity_events drv tr) = Some st"
  by (simp add: sanity_events_def interface_sanity_check_def Let_def driver_call_fields CLOG_fields)

lemma driver_stack_actions: "driver_stack st (actions es) = driver_stack st es"
  by (induction st es rule: driver_stack.induct) (simp_all split: option.splits list.splits)

lemma closes_and_pops_Clog [simp]: "closes_and_pops (map Clog ms) = []"
  by (induction ms) simp_all

lemma mirrored_refl: "mirrored s s"
  by (simp add: mirrored_def)

lemma mirrored_trans:
  assumes "mirrored s s'" "mirrored s' s''"
  shows "mirrored s s''"
proof -
  from assms obtain es es' where
    a: "trace s' = trace s @ es" "paired (closes_and_pops es)"
       "driver_stack (rev (map type (container_stack s))) es = Some (rev (map type (container_stack s')))"
    and b: "trace s'' = trace s' @ es'" "paired (closes_and_pops es')"
       "driver_stack (rev (map type (container_stack s'))) es' = Some (rev (map type (container_stack s'')))"
    by (auto simp: mirrored_def)
  have "trace s'' = trace s @ (es @ es')" using a b by simp
  moreover have "paired (closes_and_pops (es @ es'))"
    using a b by (simp add: paired_append)
  moreover have "driver_stack (rev (map type (container_stack s))) (es @ es')
                 = Some (rev (map type (container_stack s'')))"
    using a b by (simp add: driver_stack_append)
  ultimately show ?thesis unfolding mirrored_def by blast
qed

lemma mirrored_sanity: "mirrored s (interface_sanity_check drv s)"
  by (simp add: mirrored_def interface_sanity_check_eq)

lemma mirrored_pcs: "mirrored s (pop_container_stack t n s)"
proof -
  from pcs_general[of s t n] obtain k ms where
    "container_stack (pop_container_stack t n s) = take k (container_stack s)"
    "trace (pop_container_stack t n s) = trace s @ map Clog ms @ unwound (drop k (container_stack s))"
    by blast
  then show ?thesis
    by (simp add: mirrored_def driver_stack_append driver_stack_unwound_drop)
qed

lemma mirrored_draw: "mirrored s (draw_interface drv s)"
proof -
  from draw_interface_result[of s drv] obtain es where
    es: "actions es = unwound (container_stack s)"
    and res: "draw_interface drv s =
       s\<lparr>container_stack := [], errors_occurred := False,
         trace := trace s @ sanity_events drv (trace s) @ es
                  @ (if errors_occurred s \<or> container_stack s \<noteq> [] then [Clog errors_summary] else [])
                  @ [Call sk_interface_draw]\<rparr>"
    by blast
  have a: "closes_and_pops es = unwound (container_stack s)"
    using closes_and_pops_actions[of es] es by simp
  have b: "driver_stack (rev (map type (container_stack s))) es = Some []"
    using driver_stack_actions[of "rev (map type (container_stack s))" es] es
      driver_stack_unwound[of "container_stack s" "[]"] by simp
  show ?thesis
    by (simp add: mirrored_def res a b driver_stack_append)
qed

lemmas close_defs = end_panel_def end_popup_def end_inset_def end_treenode_def leave_column_def

lemmas open_defs = start_panel_def start_popup_def start_inset_def start_treenode_def
  enter_column_def push_container_stack_def new_container_def

lemmas other_defs = set_interface_font_def set_interface_font_named_def set_interface_font_size_def
  set_interface_label_width_def open_popup_def header_def label_def paragraph'_def
  last_element_changed_def last_element_confirmed_def

lemma mirrored_step: "mirrored s (step drv op s)"
proof (cases "closes op")
  case (Some kn)
  then show ?thesis
    by (cases op) (simp_all add: close_defs mirrored_trans[OF mirrored_sanity mirrored_pcs])
next
  case None
  show ?thesis
  proof (cases "op = Draw_interface")
    case True
    then show ?thesis by (simp add: mirrored_draw)
  next
    case False
    with None show ?thesis
      by (cases op; cases "container_stack s" rule: rev_cases)
         (simp_all add: mirrored_def open_defs other_defs widget_defs layout_defs pcs_match
            driver_stack_append list_update_append split: prod.splits)
  qed
qed

lemma mirrored_run: "mirrored s (run drv ops s)"
proof (induction ops arbitrary: s)
  case Nil
  show ?case by (simp add: mirrored_refl)
next
  case (Cons op ops)
  show ?case
    using mirrored_trans[OF mirrored_step[of s drv op] Cons[of "step drv op s"]] by simp
qed

lemma step_close_innermost:
  assumes "closes op = Some (t, n)" "container_stack s \<noteq> []"
    "type (last (container_stack s)) = t" "name (last (container_stack s)) = n"
  shows "container_stack (step drv op s) = butlast (container_stack s)"
    and "errors_occurred (step drv op s) = errors_occurred s"
  using assms by (cases op; simp add: close_defs pcs_match interface_sanity_check_eq)+

lemma step_no_close:
  assumes "closes op = None" "op \<noteq> Draw_interface"
  shows "map (\<lambda>c. (type c, name c)) (container_stack (step drv op s))
           = map (\<lambda>c. (type c, name c)) (container_stack s)
             @ (case opens drv op s of Some kn \<Rightarrow> [kn] | None \<Rightarrow> [])"
    and "errors_occurred (step drv op s) = errors_occurred s"
  using assms
  by (cases op; cases "container_stack s" rule: rev_cases;
      simp add: open_defs other_defs widget_defs layout_defs pcs_match list_update_append
        split: prod.splits)+

lemma well_nested_Cons:
  "well_nested drv opn (op # ops) s =
     (op \<noteq> Draw_interface \<and>
      (case closes op of
        Some kn \<Rightarrow>
          (case opn of
             [] \<Rightarrow> False
           | kn' # rest \<Rightarrow> kn' = kn \<and> well_nested drv rest ops (step drv op s))
      | None \<Rightarrow>
          well_nested drv (case opens drv op s of Some kn \<Rightarrow> kn # opn | None \<Rightarrow> opn) ops
            (step drv op s)))"
  by (cases op) (simp_all split: list.splits)

lemma well_nested_run:
  assumes "well_nested drv opn ops s"
    and "map (\<lambda>c. (type c, name c)) (container_stack s) = rev opn"
  shows "container_stack (run drv ops s) = [] \<and>
         errors_occurred (run drv ops s) = errors_occurred s"
  using assms
proof (induction ops arbitrary: s opn)
  case Nil
  then show ?case by simp
next
  case (Cons op ops)
  from Cons.prems(1) have nd: "op \<noteq> Draw_interface"
    by (simp add: well_nested_Cons)
  show ?case
  proof (cases "closes op")
    case None
    let ?opn' = "case opens drv op s of Some kn \<Rightarrow> kn # opn | None \<Rightarrow> opn"
    from Cons.prems(1) None have wn: "well_nested drv ?opn' ops (step drv op s)"
      by (simp add: well_nested_Cons)
    have "map (\<lambda>c. (type c, name c)) (container_stack (step drv op s)) = rev ?opn'"
      using step_no_close(1)[OF None nd, of drv s] Cons.prems(2) by (simp split: option.splits)
    from Cons.IH[OF wn this] step_no_close(2)[OF None nd, of drv s] show ?thesis
      by simp
  next
    case (Some kn)
    obtain t n where kn: "kn = (t, n)" by (cases kn)
    from Cons.prems(1) Some obtain rest where opn: "opn = kn # rest"
      and wn: "well_nested drv rest ops (step drv op s)"
      by (auto simp add: well_nested_Cons split: list.splits)
    from Cons.prems(2) opn kn have keys: "map (\<lambda>c. (type c, name c)) (container_stack s) = rev rest @ [(t, n)]"
      by simp
    then obtain cs c where cs: "container_stack s = cs @ [c]"
      by (cases "container_stack s" rule: rev_cases) auto
    with keys have c: "type c = t" "name c = n" and rest: "map (\<lambda>c. (type c, name c)) cs = rev rest"
      by auto
    have "container_stack (step drv op s) = cs" "errors_occurred (step drv op s) = errors_occurred s"
      using step_close_innermost[of op t n s drv] Some kn cs c by simp_all
    with Cons.IH[OF wn, of ] rest show ?thesis by simp
  qed
qed

text \<open>
  C4. A well-nested sequence of calls (every close asks for the innermost container
  open, every open that succeeded is closed, no draw in between), run from an empty
  stack with the error flag unset: the stack is empty again at the end, the error flag
  is still unset, and the driver calls made pair every call that opened a container
  with one close call of the same type, last opened first closed, with none left open.
\<close>

theorem well_nested_round_trip:
  assumes "container_stack s = []" and "\<not> errors_occurred s" and "well_nested drv [] ops s"
  shows "container_stack (run drv ops s) = []
       \<and> \<not> errors_occurred (run drv ops s)
       \<and> driver_stack [] (new_trace s (run drv ops s)) = Some []"
proof -
  from well_nested_run[OF assms(3)] assms(1,2) have
    a: "container_stack (run drv ops s) = []" "\<not> errors_occurred (run drv ops s)"
    by simp_all
  from mirrored_run[of s drv ops] obtain es where
    "trace (run drv ops s) = trace s @ es"
    "driver_stack (rev (map type (container_stack s))) es
       = Some (rev (map type (container_stack (run drv ops s))))"
    by (auto simp: mirrored_def)
  then have "driver_stack [] (new_trace s (run drv ops s)) = Some []"
    using a(1) assms(1) by (simp add: new_trace_def)
  with a show ?thesis by simp
qed

text \<open>
  C6. Over any sequence of calls of the public functions, from any state, the close
  calls made to the driver and the pops of the stack come in pairs: each pop is
  preceded, with nothing of the two kinds in between, by the driver's close for the type
  of the record popped, and each close call is followed by such a pop. So a record is
  closed as often as it is popped, and a call that pops nothing closes nothing.
\<close>

theorem close_calls_pair_with_pops:
  "paired (closes_and_pops (new_trace s (run drv ops s)))"
proof -
  from mirrored_run[of s drv ops] obtain es where
    "trace (run drv ops s) = trace s @ es" "paired (closes_and_pops es)"
    by (auto simp: mirrored_def)
  then show ?thesis by (simp add: new_trace_def)
qed

text \<open>A panel holding a column with a labelled button, then a tree node.\<close>

theorem well_nested_round_trip_witness:
  "container_stack initial_state = [] \<and> \<not> errors_occurred initial_state
   \<and> well_nested example_driver [] nested_calls initial_state
   \<and> container_stack (run example_driver nested_calls initial_state) = []
   \<and> \<not> errors_occurred (run example_driver nested_calls initial_state)
   \<and> driver_stack [] (new_trace initial_state (run example_driver nested_calls initial_state))
       = Some []"
proof -
  have h: "well_nested example_driver [] nested_calls initial_state"
    by code_simp
  have e: "container_stack initial_state = []" "\<not> errors_occurred initial_state"
    by (simp_all add: initial_state_def)
  show ?thesis
    using h e well_nested_round_trip[OF e h] by simp
qed

text \<open>
  A run with a premature close, a close of something never opened, and a draw with an
  inset left open.
\<close>

theorem close_calls_pair_with_pops_witness:
  "closes_and_pops (new_trace initial_state (run example_driver faulty_calls initial_state))
     = [Call sk_interface_end_column, Popped (new_container column ''''),
        Call sk_interface_end_panel, Popped (new_container panel ''p''),
        Call sk_interface_end_inset, Popped (new_container inset ''i'')]
   \<and> paired
       (closes_and_pops (new_trace initial_state (run example_driver faulty_calls initial_state)))"
proof -
  have "closes_and_pops (new_trace initial_state (run example_driver faulty_calls initial_state))
     = [Call sk_interface_end_column, Popped (new_container column ''''),
        Call sk_interface_end_panel, Popped (new_container panel ''p''),
        Call sk_interface_end_inset, Popped (new_container inset ''i'')]"
    by code_simp
  then show ?thesis
    using close_calls_pair_with_pops[of initial_state example_driver faulty_calls]
    by simp
qed

end
